theory Spec2Isabelle
  imports Main
begin

section \<open>JavaScript values\<close>

text \<open>
  The plugins handle values handed to them by the identity-provider SDK: responses of
  \<open>getUser()\<close> and \<open>getSession()\<close>, users, sessions. They are JSON data. An
  object is the list of its own enumerable properties in enumeration order, which is the
  order \<open>JSON.stringify\<close> and a rest pattern follow. Numbers are the integers
  (expiry times and lifetimes in seconds). \<open>undefined\<close> is not a JSON value: an
  expression that may be \<open>undefined\<close> has type \<open>json option\<close>, with \<open>None\<close>
  for \<open>undefined\<close>.
\<close>

datatype json =
    JNull
  | JBool bool
  | JNum int
  | JStr string
  | JArr "json list"
  | JObj "(string \<times> json) list"

text \<open>What \<open>if (v)\<close>, \<open>!v\<close> and \<open>a && b\<close> test.\<close>

fun truthy :: "json option \<Rightarrow> bool" where
  "truthy None = False"
| "truthy (Some JNull) = False"
| "truthy (Some (JBool b)) = b"
| "truthy (Some (JNum n)) = (n \<noteq> 0)"
| "truthy (Some (JStr s)) = (s \<noteq> [])"
| "truthy (Some (JArr xs)) = True"
| "truthy (Some (JObj kvs)) = True"

text \<open>
  Reading a property of a value that is neither \<open>null\<close> nor \<open>undefined\<close>. The
  plugins read \<open>data\<close>, \<open>error\<close>, \<open>user\<close>, \<open>session\<close>, \<open>id\<close> and
  \<open>message\<close>; a boolean, a number, a string or an array has none of these, so the
  read gives \<open>undefined\<close> there.
\<close>

fun get_prop :: "json \<Rightarrow> string \<Rightarrow> json option" where
  "get_prop (JObj kvs) k = map_of kvs k"
| "get_prop v k = None"

datatype thrown = TypeError | Reason json

text \<open>\<open>a.k\<close>: a TypeError when \<open>a\<close> is \<open>null\<close> or \<open>undefined\<close>.\<close>

fun dot :: "json option \<Rightarrow> string \<Rightarrow> thrown + json option" where
  "dot None k = Inl TypeError"
| "dot (Some JNull) k = Inl TypeError"
| "dot (Some v) k = Inr (get_prop v k)"

text \<open>\<open>a?.k\<close>: \<open>undefined\<close> when \<open>a\<close> is \<open>null\<close> or \<open>undefined\<close>.\<close>

fun opt_dot :: "json option \<Rightarrow> string \<Rightarrow> json option" where
  "opt_dot None k = None"
| "opt_dot (Some JNull) k = None"
| "opt_dot (Some v) k = get_prop v k"

text \<open>\<open>a ?? null\<close>.\<close>

fun nullish :: "json option \<Rightarrow> json" where
  "nullish None = JNull"
| "nullish (Some v) = v"

text \<open>
  \<open>const { a: x, b: y } = v\<close>: a TypeError when \<open>v\<close> is \<open>null\<close>, the two
  properties otherwise.
\<close>

fun destructure :: "json \<Rightarrow> string \<Rightarrow> string \<Rightarrow> thrown + (json option \<times> json option)" where
  "destructure JNull a b = Inl TypeError"
| "destructure v a b = Inr (get_prop v a, get_prop v b)"

text \<open>A settled promise, and \<open>await\<close> on it: a rejection is thrown.\<close>

datatype 'a settled = Rejected json | Fulfilled 'a

fun await :: "'a settled \<Rightarrow> thrown + 'a" where
  "await (Rejected r) = Inl (Reason r)"
| "await (Fulfilled v) = Inr v"

subsection \<open>JSON.stringify\<close>

text \<open>
  The text \<open>JSON.stringify\<close> produces for a JSON value without an indent argument:
  integers in decimal, strings quoted with the escapes of the language definition, the
  elements of an array and the members of an object separated by commas, in order.
\<close>

definition digit_char :: "nat \<Rightarrow> char" where
  "digit_char n = char_of (48 + n)"

fun show_nat :: "nat \<Rightarrow> string" where
  "show_nat n = (if n < 10 then [digit_char n] else show_nat (n div 10) @ [digit_char (n mod 10)])"

declare show_nat.simps [simp del]

definition show_int :: "int \<Rightarrow> string" where
  "show_int i = (if i < 0 then CHR ''-'' # show_nat (nat (- i)) else show_nat (nat i))"

definition hex_char :: "nat \<Rightarrow> char" where
  "hex_char n = (if n < 10 then char_of (48 + n) else char_of (87 + n))"

definition quote_char :: "char \<Rightarrow> string" where
  "quote_char c =
     (if c = CHR 0x08 then [CHR 0x5C, CHR ''b'']
      else if c = CHR 0x09 then [CHR 0x5C, CHR ''t'']
      else if c = CHR 0x0A then [CHR 0x5C, CHR ''n'']
      else if c = CHR 0x0C then [CHR 0x5C, CHR ''f'']
      else if c = CHR 0x0D then [CHR 0x5C, CHR ''r'']
      else if c = CHR 0x22 then [CHR 0x5C, CHR 0x22]
      else if c = CHR 0x5C then [CHR 0x5C, CHR 0x5C]
      else if of_char c < (32::nat) then
        [CHR 0x5C, CHR ''u'', CHR ''0'', CHR ''0'',
         hex_char (of_char c div 16), hex_char (of_char c mod 16)]
      else [c])"

definition quote :: "string \<Rightarrow> string" where
  "quote s = CHR 0x22 # concat (map quote_char s) @ [CHR 0x22]"

fun commas :: "string list \<Rightarrow> string" where
  "commas [] = []"
| "commas [x] = x"
| "commas (x # y # ys) = x @ CHR '','' # commas (y # ys)"

fun stringify :: "json \<Rightarrow> string" where
  "stringify JNull = ''null''"
| "stringify (JBool b) = (if b then ''true'' else ''false'')"
| "stringify (JNum n) = show_int n"
| "stringify (JStr s) = quote s"
| "stringify (JArr xs) = CHR ''['' # commas (map stringify xs) @ '']''"
| "stringify (JObj kvs) =
     CHR ''{'' # commas (map (\<lambda>(k, v). quote k @ CHR '':'' # stringify v) kvs) @ ''}''"

section \<open>The logger and the application state\<close>

text \<open>
  \<open>logger.info\<close>, \<open>logger.warn\<close> and \<open>logger.error\<close> of \<open>utils/logger.ts\<close>
  print one record per call. The model keeps the records: the level, the message, and the
  data or error the record carries (\<open>data\<close> when the argument is given, \<open>error\<close>
  when the argument is truthy). A field of the data may be \<open>undefined\<close>.
\<close>

datatype level = INFO | WARN | ERROR

datatype payload = NoPayload | Data "(string \<times> json option) list" | Err thrown

type_synonym entry = "level \<times> string \<times> payload"

datatype client =
    ServerClient string string
  | BrowserClient string string
  | PlainClient string string

text \<open>
  What a plugin reads and writes: the two reactive cells \<open>useSupabaseSession()\<close> and
  \<open>useSupabaseUser()\<close>, the log, what \<open>provide\<close> registered, and whether the
  auth-event callback is registered.
\<close>

record app =
  currentSession :: json
  currentUser :: json
  logged :: "entry list"
  provided :: "(string \<times> client) list"
  subscribed :: bool

record config =
  url :: string
  key :: string
  cookiePrefix :: string
  useSsrCookies :: bool

definition info :: "string \<Rightarrow> payload \<Rightarrow> entry list \<Rightarrow> entry list" where
  "info message data lg = lg @ [(INFO, message, data)]"

definition warn :: "string \<Rightarrow> payload \<Rightarrow> entry list \<Rightarrow> entry list" where
  "warn message data lg = lg @ [(WARN, message, data)]"

fun error_payload :: "thrown \<Rightarrow> payload" where
  "error_payload TypeError = Err TypeError"
| "error_payload (Reason v) = (if truthy (Some v) then Err (Reason v) else NoPayload)"

definition error :: "string \<Rightarrow> thrown \<Rightarrow> entry list \<Rightarrow> entry list" where
  "error message e lg = lg @ [(ERROR, message, error_payload e)]"

definition provide :: "string \<Rightarrow> client \<Rightarrow> app \<Rightarrow> app" where
  "provide name c st = st\<lparr>provided := provided st @ [(name, c)]\<rparr>"

section \<open>The server-side plugin\<close>

text \<open>
  \<open>p.catch((error) => { logger.error(message, error); return null })\<close> on a
  settled promise.
\<close>

fun catch_null :: "string \<Rightarrow> json settled \<Rightarrow> entry list \<Rightarrow> json \<times> entry list" where
  "catch_null message (Rejected r) lg = (JNull, error message (Reason r) lg)"
| "catch_null message (Fulfilled v) lg = (v, lg)"

text \<open>
  \<open>setup\<close> of the server plugin. The two arguments after the configuration are the
  promises \<open>serverSupabaseSession(event)\<close> and \<open>serverSupabaseUser(event)\<close>, as
  they settle. Each has its own \<open>catch\<close>, so \<open>Promise.all\<close> always fulfils and
  nothing in the \<open>try\<close> block throws; when both reject, the log has the session's
  record before the user's.
\<close>

definition setup_server :: "config \<Rightarrow> json settled \<Rightarrow> json settled \<Rightarrow> app \<Rightarrow> app" where
  "setup_server cfg sessionPromise userPromise st =
     (let lg1 = info ''Initializing server-side Supabase client'' NoPayload (logged st);
          st1 = provide ''supabase'' (ServerClient (url cfg) (key cfg)) st
      in if useSsrCookies cfg then
           (let lg2 = info ''Attempting to retrieve server-side Supabase session and user''
                        NoPayload lg1;
                (session, lg3) =
                  catch_null ''Failed to retrieve server-side Supabase session'' sessionPromise lg2;
                (user, lg4) =
                  catch_null ''Failed to retrieve server-side Supabase user'' userPromise lg3;
                lg5 =
                  (if truthy (Some session) \<and> truthy (Some user) then
                     info ''Successfully retrieved server-side Supabase session and user''
                       (Data [(''userId'', get_prop user ''id''),
                              (''hasSession'', Some (JBool (truthy (Some session))))]) lg4
                   else
                     info ''No active server-side Supabase session or user found''
                       (Data [(''hasSession'', Some (JBool (truthy (Some session)))),
                              (''hasUser'', Some (JBool (truthy (Some user))))]) lg4)
            in st1\<lparr>currentSession := session, currentUser := user, logged := lg5\<rparr>)
         else
           st1\<lparr>logged := info ''SSR cookies disabled, skipping server-side auth initialization''
                             NoPayload lg1\<rparr>)"

section \<open>The auth-event callback of the client-side plugin\<close>

text \<open>
  The callback given to \<open>onAuthStateChange\<close>, applied to one event \<open>(event, session)\<close>.
\<close>

definition on_auth_state_change :: "app \<Rightarrow> string \<times> json \<Rightarrow> app" where
  "on_auth_state_change st ev =
     (case ev of (event, session) \<Rightarrow>
        (let st1 = st\<lparr>logged := info ''Auth state changed''
                      (Data [(''event'', Some (JStr event)), (''session'', Some session)])
                      (logged st)\<rparr>
         in if stringify (currentSession st1) \<noteq> stringify session
            then st1\<lparr>currentSession := session,
                     currentUser := nullish (opt_dot (Some session) ''user'')\<rparr>
            else st1))"

section \<open>The initialisation of the client-side plugin\<close>

text \<open>The local variables \<open>session\<close> and \<open>user\<close> of \<open>setup\<close>, and the log.\<close>

record frame =
  session :: json
  user :: json
  trace :: "entry list"

text \<open>
  \<open>const { user: _, ...sessionWithoutUser } = v\<close>: the own enumerable properties of
  \<open>v\<close> other than \<open>user\<close>, in order. A string or an array has its indices as
  properties, a boolean or a number none.
\<close>

fun rest_without_user :: "json option \<Rightarrow> thrown + json" where
  "rest_without_user None = Inl TypeError"
| "rest_without_user (Some JNull) = Inl TypeError"
| "rest_without_user (Some (JObj kvs)) = Inr (JObj (filter (\<lambda>(k, v). k \<noteq> ''user'') kvs))"
| "rest_without_user (Some (JArr xs)) = Inr (JObj (zip (map show_nat [0..<length xs]) xs))"
| "rest_without_user (Some (JStr s)) =
     Inr (JObj (zip (map show_nat [0..<length s]) (map (\<lambda>c. JStr [c]) s)))"
| "rest_without_user (Some v) = Inr (JObj [])"

text \<open>The session built when \<open>getSession()\<close> gave none; \<open>now\<close> is \<open>Date.now()\<close>.\<close>

definition placeholder :: "int \<Rightarrow> json" where
  "placeholder now =
     JObj [(''access_token'', JStr []),
           (''refresh_token'', JStr []),
           (''expires_in'', JNum 3600),
           (''expires_at'', JNum (now div 1000 + 3600)),
           (''token_type'', JStr ''bearer'')]"

text \<open>The \<open>else\<close> branch: no user.\<close>

definition no_user :: "json option \<Rightarrow> frame \<Rightarrow> frame" where
  "no_user userError f =
     (let f1 = f\<lparr>trace := info ''No active user found'' NoPayload (trace f)\<rparr>
      in case userError of
           None \<Rightarrow> f1
         | Some e \<Rightarrow>
             if truthy (Some e)
             then f1\<lparr>trace := error ''User verification error:'' (Reason e) (trace f1)\<rparr>
             else f1)"

text \<open>
  The comparison of the two identities, which logs a mismatch. \<open>!==\<close> and
  \<open>===\<close> compare the strings and numbers that identities are by value, and so does
  the model; a missing \<open>id\<close> is \<open>undefined\<close> on either side.
\<close>

definition check_mismatch :: "json option \<Rightarrow> frame \<Rightarrow> frame \<times> thrown option" where
  "check_mismatch sessionData f =
     (if truthy (opt_dot sessionData ''session'') then
        (case dot sessionData ''session'' of Inl e \<Rightarrow> (f, Some e) | Inr s \<Rightarrow>
         case dot s ''user'' of Inl e \<Rightarrow> (f, Some e) | Inr sessionUser \<Rightarrow>
         case dot (Some (user f)) ''id'' of Inl e \<Rightarrow> (f, Some e) | Inr userId \<Rightarrow>
           if opt_dot sessionUser ''id'' \<noteq> userId then
             (case dot (Some (user f)) ''id'' of Inl e \<Rightarrow> (f, Some e) | Inr getUserId \<Rightarrow>
              case dot sessionUser ''id'' of Inl e \<Rightarrow> (f, Some e) | Inr getSessionUserId \<Rightarrow>
                (f\<lparr>trace := warn ''User ID mismatch between getUser and getSession''
                     (Data [(''getUserId'', getUserId), (''getSessionUserId'', getSessionUserId)])
                     (trace f)\<rparr>, None))
           else (f, None))
      else (f, None))"

text \<open>The session: what \<open>getSession()\<close> gave without its user, or the placeholder.\<close>

definition construct_session :: "int \<Rightarrow> json option \<Rightarrow> frame \<Rightarrow> frame \<times> thrown option" where
  "construct_session now sessionData f =
     (if truthy (Some (user f)) then
        if truthy (opt_dot sessionData ''session'') then
          (case dot sessionData ''session'' of Inl e \<Rightarrow> (f, Some e) | Inr s \<Rightarrow>
           case rest_without_user s of Inl e \<Rightarrow> (f, Some e) | Inr sessionWithoutUser \<Rightarrow>
             (f\<lparr>session := sessionWithoutUser,
                trace := info ''Using session data from getSession()'' NoPayload (trace f)\<rparr>, None))
        else
          (f\<lparr>session := placeholder now,
             trace := info ''Session constructed from user data successfully'' NoPayload (trace f)\<rparr>,
           None)
      else (f, None))"

text \<open>The \<open>then\<close> branch: \<open>getUser()\<close> gave the user \<open>u\<close>.\<close>

definition authenticated :: "int \<Rightarrow> json \<Rightarrow> json option \<Rightarrow> frame \<Rightarrow> frame \<times> thrown option" where
  "authenticated now u sessionData f =
     (let f1 = f\<lparr>user := u\<rparr>
      in case dot (Some (user f1)) ''id'' of Inl e \<Rightarrow> (f1, Some e) | Inr userId \<Rightarrow>
         (let f2 = f1\<lparr>trace := info ''User authenticated successfully''
                                  (Data [(''userId'', userId)]) (trace f1)\<rparr>
          in case check_mismatch sessionData f2 of
               (f3, Some e) \<Rightarrow> (f3, Some e)
             | (f3, None) \<Rightarrow> construct_session now sessionData f3))"

text \<open>
  The body of the \<open>try\<close> block: the frame when the block ends, and what it threw if it
  threw. \<open>getSession()\<close> is awaited after \<open>getUser()\<close> has settled.
\<close>

definition verify :: "int \<Rightarrow> json settled \<Rightarrow> json settled \<Rightarrow> frame \<Rightarrow> frame \<times> thrown option" where
  "verify now getUser getSession f =
     (let f1 = f\<lparr>trace := info ''Verifying user authentication'' NoPayload (trace f)\<rparr>
      in case await getUser of Inl e \<Rightarrow> (f1, Some e) | Inr userResponse \<Rightarrow>
         case destructure userResponse ''data'' ''error'' of Inl e \<Rightarrow> (f1, Some e)
         | Inr (userData, userError) \<Rightarrow>
         case await getSession of Inl e \<Rightarrow> (f1, Some e) | Inr sessionResponse \<Rightarrow>
         case destructure sessionResponse ''data'' ''error'' of Inl e \<Rightarrow> (f1, Some e)
         | Inr (sessionData, sessionError) \<Rightarrow>
         (let f2 = f1\<lparr>trace := info ''Authentication verification''
                (Data [(''hasUserData'', Some (JBool (truthy (opt_dot userData ''user'')))),
                       (''hasSessionData'', Some (JBool (truthy (opt_dot sessionData ''session'')))),
                       (''userError'', opt_dot userError ''message''),
                       (''sessionError'', opt_dot sessionError ''message''),
                       (''userMatch'', Some (JBool
                          (opt_dot (opt_dot userData ''user'') ''id''
                             = opt_dot (opt_dot (opt_dot sessionData ''session'') ''user'') ''id'')))])
                (trace f1)\<rparr>
          in if truthy userError then (no_user userError f2, None)
             else
               (case dot userData ''user'' of
                  Inl e \<Rightarrow> (f2, Some e)
                | Inr None \<Rightarrow> (no_user userError f2, None)
                | Inr (Some u) \<Rightarrow>
                    if truthy (Some u) then authenticated now u sessionData f2
                    else (no_user userError f2, None))))"

text \<open>
  \<open>setup\<close> of the client plugin: the client is created and provided, the \<open>try\<close>
  block runs, its \<open>catch\<close> logs and resets both variables, the two cells are written
  and the auth-event callback is registered.
\<close>

definition setup_client :: "config \<Rightarrow> int \<Rightarrow> json settled \<Rightarrow> json settled \<Rightarrow> app \<Rightarrow> app" where
  "setup_client cfg now getUser getSession st =
     (let c = (if useSsrCookies cfg then BrowserClient (url cfg) (key cfg)
               else PlainClient (url cfg) (key cfg));
          st1 = provide ''supabase'' c st;
          f0 = \<lparr>session = JNull, user = JNull, trace = logged st1\<rparr>;
          f1 = (case verify now getUser getSession f0 of
                  (f, None) \<Rightarrow> f
                | (f, Some e) \<Rightarrow>
                    f\<lparr>trace := error ''Authentication initialization error:'' e (trace f),
                      session := JNull, user := JNull\<rparr>)
      in st1\<lparr>currentSession := session f1, currentUser := user f1, logged := trace f1,
              subscribed := True\<rparr>)"

section \<open>The retrying transport\<close>

text \<open>
  Modelled from the spec: \<open>fetchWithRetry\<close> of \<open>utils/fetch-retry\<close>, which both
  plugins pass to the client as its \<open>fetch\<close> and whose file is not among the sources.
  The specification gives its contract: each failure is retryable (network error,
  connection reset, 5xx status, timeout) or terminal (4xx status other than rate-limit,
  malformed request); a retryable failure is retried up to a fixed maximum attempt count,
  with a delay between attempts that starts at a base delay and doubles; a terminal failure
  propagates at once; any other response is returned, whatever its body. The rate-limit
  status 429 is the one 4xx status that is not terminal, so it is retried. The attempt state
  is per call: the attempt counter, the backoff elapsed, the last error.
\<close>

datatype attempt_result =
    Response nat
  | NetworkError
  | ConnectionReset
  | Timeout
  | MalformedRequest

datatype failure = Retryable | Terminal

text \<open>
  Modelled from the spec: the class of what an attempt gave, \<open>None\<close> for a response
  that is returned to the caller.
\<close>

fun classify :: "attempt_result \<Rightarrow> failure option" where
  "classify (Response status) =
     (if 500 \<le> status \<and> status < 600 then Some Retryable
      else if status = 429 then Some Retryable
      else if 400 \<le> status \<and> status < 500 then Some Terminal
      else None)"
| "classify NetworkError = Some Retryable"
| "classify ConnectionReset = Some Retryable"
| "classify Timeout = Some Retryable"
| "classify MalformedRequest = Some Terminal"

text \<open>Modelled from the spec: the attempt state of one call, and how the call ends.\<close>

record attempt_state =
  attempts :: nat
  elapsed :: nat
  last_error :: "attempt_result option"

datatype outcome = Responded attempt_result | Failed "attempt_result option"

text \<open>
  Modelled from the spec: the attempts of one call. \<open>request i\<close> is what the network
  gives at the attempt numbered \<open>i\<close> (from 0), \<open>delay\<close> the backoff before the next
  attempt, \<open>left\<close> the attempts still allowed.
\<close>

fun retry :: "(nat \<Rightarrow> attempt_result) \<Rightarrow> nat \<Rightarrow> nat \<Rightarrow> attempt_state \<Rightarrow> outcome \<times> attempt_state" where
  "retry request delay 0 st = (Failed (last_error st), st)"
| "retry request delay (Suc left) st =
     (let r = request (attempts st);
          st1 = st\<lparr>attempts := Suc (attempts st)\<rparr>
      in case classify r of
           None \<Rightarrow> (Responded r, st1)
         | Some Terminal \<Rightarrow> (Failed (Some r), st1\<lparr>last_error := Some r\<rparr>)
         | Some Retryable \<Rightarrow>
             if left = 0 then (Failed (Some r), st1\<lparr>last_error := Some r\<rparr>)
             else retry request (2 * delay) left
                    (st1\<lparr>last_error := Some r, elapsed := elapsed st1 + delay\<rparr>))"

text \<open>
  Modelled from the spec: one call of the transport with the maximum attempt count and the
  base delay.
\<close>

definition fetchWithRetry :: "nat \<Rightarrow> nat \<Rightarrow> (nat \<Rightarrow> attempt_result) \<Rightarrow> outcome \<times> attempt_state" where
  "fetchWithRetry maxAttempts baseDelay request =
     retry request baseDelay maxAttempts \<lparr>attempts = 0, elapsed = 0, last_error = None\<rparr>"

section \<open>Notions used to state the properties\<close>

text \<open>The pair of cells is null-safe: no session without a user.\<close>

definition null_safe :: "app \<Rightarrow> bool" where
  "null_safe st \<longleftrightarrow> (currentUser st = JNull \<longrightarrow> currentSession st = JNull)"

text \<open>
  A value of the type \<open>Session | null\<close> that the callback declares for its second
  parameter: \<open>null\<close>, or an object whose \<open>user\<close> is an object.
\<close>

fun session_typed :: "json \<Rightarrow> bool" where
  "session_typed JNull = True"
| "session_typed (JObj kvs) = (case map_of kvs ''user'' of Some (JObj u) \<Rightarrow> True | _ \<Rightarrow> False)"
| "session_typed v = False"

text \<open>
  What \<open>getUser()\<close> gave, read off the result shape \<open>{ data: { user }, error }\<close> of
  the SDK: the user when the promise fulfilled with no error and a user, nothing otherwise.
\<close>

definition user_given :: "json settled \<Rightarrow> json option" where
  "user_given getUser =
     (case getUser of
        Rejected r \<Rightarrow> None
      | Fulfilled response \<Rightarrow>
          if response = JNull \<or> truthy (get_prop response ''error'') then None
          else (let u = opt_dot (get_prop response ''data'') ''user''
                in if truthy u then u else None))"

text \<open>
  What \<open>getSession()\<close> gave, read off the result shape \<open>{ data: { session }, error }\<close>:
  the promise rejected (or fulfilled with \<open>null\<close>), or it returned without a session (as
  it does with an error payload), or it returned a session.
\<close>

datatype session_outcome = NoResult | NoSession | Session json

definition session_given :: "json settled \<Rightarrow> session_outcome" where
  "session_given getSession =
     (case getSession of
        Rejected r \<Rightarrow> NoResult
      | Fulfilled response \<Rightarrow>
          if response = JNull then NoResult
          else (case opt_dot (get_prop response ''data'') ''session'' of
                  None \<Rightarrow> NoSession
                | Some s \<Rightarrow> if truthy (Some s) then Session s else NoSession))"

text \<open>
  Deep structural equality of two values: the same kind of value, arrays with deep-equal
  elements in order, objects with the same property names and deep-equal values under each
  name, in whatever order the properties stand.
\<close>

primrec deep_equal :: "json \<Rightarrow> json \<Rightarrow> bool"
  and elems_equal :: "json list \<Rightarrow> json list \<Rightarrow> bool"
  and members_equal :: "(string \<times> json) list \<Rightarrow> (string \<times> json) list \<Rightarrow> bool"
  and member_equal :: "string \<times> json \<Rightarrow> (string \<times> json) list \<Rightarrow> bool" where
  "deep_equal JNull b = (b = JNull)"
| "deep_equal (JBool x) b = (b = JBool x)"
| "deep_equal (JNum n) b = (b = JNum n)"
| "deep_equal (JStr s) b = (b = JStr s)"
| "deep_equal (JArr xs) b = (case b of JArr ys \<Rightarrow> elems_equal xs ys | _ \<Rightarrow> False)"
| "deep_equal (JObj kvs) b = (case b of JObj kvs' \<Rightarrow> members_equal kvs kvs' | _ \<Rightarrow> False)"
| "elems_equal [] ys = (ys = [])"
| "elems_equal (x # xs) ys =
     (case ys of [] \<Rightarrow> False | y # ys' \<Rightarrow> deep_equal x y \<and> elems_equal xs ys')"
| "members_equal [] kvs' = (kvs' = [])"
| "members_equal (kv # kvs) kvs' =
     (member_equal kv kvs' \<and> members_equal kvs (filter (\<lambda>kv'. fst kv' \<noteq> fst kv) kvs'))"
| "member_equal (k, v) kvs' =
     (case map_of kvs' k of None \<Rightarrow> False | Some v' \<Rightarrow> deep_equal v v')"

text \<open>The records a run added to the log.\<close>

definition new_entries :: "app \<Rightarrow> app \<Rightarrow> entry list" where
  "new_entries st st' = drop (length (logged st)) (logged st')"

text \<open>Applying the callback to the events of a stream, in arrival order.\<close>

definition deliver :: "app \<Rightarrow> (string \<times> json) list \<Rightarrow> app" where
  "deliver st evs = foldl on_auth_state_change st evs"

text \<open>What the server-side plugin stores for a fetch: its value, or \<open>null\<close> if it failed.\<close>

fun fetched :: "json settled \<Rightarrow> json" where
  "fetched (Rejected r) = JNull"
| "fetched (Fulfilled v) = v"

subsection \<open>Reading the output of JSON.stringify back\<close>

definition is_digit :: "char \<Rightarrow> bool" where
  "is_digit c = (48 \<le> (of_char c :: nat) \<and> (of_char c :: nat) < 58)"

text \<open>What may follow a number in the output: nothing, or a character that is no digit.\<close>

fun sep :: "string \<Rightarrow> bool" where
  "sep [] = True"
| "sep (c # cs) = (\<not> is_digit c)"

definition read_nat :: "string \<Rightarrow> nat" where
  "read_nat cs = foldl (\<lambda>a c. 10 * a + (of_char c - 48)) 0 cs"

definition short_escape :: "char \<Rightarrow> char option" where
  "short_escape c =
     (if c = CHR 0x08 then Some CHR ''b''
      else if c = CHR 0x09 then Some CHR ''t''
      else if c = CHR 0x0A then Some CHR ''n''
      else if c = CHR 0x0C then Some CHR ''f''
      else if c = CHR 0x0D then Some CHR ''r''
      else if c = CHR 0x22 then Some CHR 0x22
      else if c = CHR 0x5C then Some CHR 0x5C
      else None)"

definition member_text :: "string \<times> json \<Rightarrow> string" where
  "member_text kv = quote (fst kv) @ CHR '':'' # stringify (snd kv)"

fun ctor :: "json \<Rightarrow> nat" where
  "ctor JNull = 0"
| "ctor (JBool b) = 1"
| "ctor (JNum n) = 2"
| "ctor (JStr s) = 3"
| "ctor (JArr xs) = 4"
| "ctor (JObj kvs) = 5"

text \<open>The kind of value a first character announces.\<close>

definition lead :: "char \<Rightarrow> nat" where
  "lead c =
     (if c = CHR ''n'' then 0 else if c = CHR ''t'' \<or> c = CHR ''f'' then 1
      else if c = CHR 0x22 then 3 else if c = CHR ''['' then 4
      else if c = CHR ''{'' then 5 else 2)"

section \<open>Scenarios\<close>

text \<open>
  Concrete inputs, used to run the model: the cells before a plugin has run, two
  configurations, two users, a session around a user, and the result shapes of the SDK.
\<close>

definition blank :: app where
  "blank = \<lparr>currentSession = JNull, currentUser = JNull, logged = [], provided = [],
            subscribed = False\<rparr>"

definition ssr :: config where
  "ssr = \<lparr>url = ''https://project.supabase.co'', key = ''anon'', cookiePrefix = ''sb'',
          useSsrCookies = True\<rparr>"

definition no_ssr :: config where
  "no_ssr = \<lparr>url = ''https://project.supabase.co'', key = ''anon'', cookiePrefix = ''sb'',
             useSsrCookies = False\<rparr>"

definition user_u1 :: json where
  "user_u1 = JObj [(''id'', JStr ''u1'')]"

definition user_u2 :: json where
  "user_u2 = JObj [(''id'', JStr ''u2'')]"

definition tokens :: json where
  "tokens = JObj [(''access_token'', JStr ''at''), (''refresh_token'', JStr ''rt''),
                  (''expires_in'', JNum 3600), (''token_type'', JStr ''bearer'')]"

definition session_of :: "json \<Rightarrow> json" where
  "session_of u = JObj [(''access_token'', JStr ''at''), (''refresh_token'', JStr ''rt''),
                        (''expires_in'', JNum 3600), (''token_type'', JStr ''bearer''),
                        (''user'', u)]"

text \<open>The same session with its properties in another order.\<close>

definition reordered_session_of :: "json \<Rightarrow> json" where
  "reordered_session_of u = JObj [(''user'', u), (''token_type'', JStr ''bearer''),
                                  (''expires_in'', JNum 3600), (''refresh_token'', JStr ''rt''),
                                  (''access_token'', JStr ''at'')]"

definition user_response :: "json \<Rightarrow> json settled" where
  "user_response u = Fulfilled (JObj [(''data'', JObj [(''user'', u)]), (''error'', JNull)])"

definition session_response :: "json \<Rightarrow> json settled" where
  "session_response s = Fulfilled (JObj [(''data'', JObj [(''session'', s)]), (''error'', JNull)])"

definition error_response :: "string \<Rightarrow> string \<Rightarrow> json settled" where
  "error_response field message =
     Fulfilled (JObj [(''data'', JObj [(field, JNull)]),
                      (''error'', JObj [(''message'', JStr message)])])"

definition signed_in :: app where
  "signed_in = blank\<lparr>currentSession := session_of user_u1, currentUser := user_u1\<rparr>"

section \<open>JSON.stringify is one-to-one\<close>

text \<open>
  The callback compares two sessions by their \<open>JSON.stringify\<close> texts. On JSON
  values the text determines the value: a value can be read back from its text, even when
  more text follows it.
\<close>

lemma of_char_digit_char: "n < 10 \<Longrightarrow> (of_char (digit_char n) :: nat) = 48 + n"
  by (simp add: digit_char_def)

lemma is_digit_digit_char: "n < 10 \<Longrightarrow> is_digit (digit_char n)"
  by (simp add: is_digit_def of_char_digit_char)

lemma show_nat_digits: "\<forall>c \<in> set (show_nat n). is_digit c"
proof (induction n rule: show_nat.induct)
  case (1 n)
  show ?case
  proof (cases "n < 10")
    case True
    then show ?thesis by (subst show_nat.simps) (simp add: is_digit_digit_char)
  next
    case False
    have m: "n mod 10 < 10" by simp
    from False 1 have "\<forall>c \<in> set (show_nat (n div 10)). is_digit c" by simp
    with False m show ?thesis
      by (subst show_nat.simps) (simp add: is_digit_digit_char)
  qed
qed

lemma show_nat_nonempty: "show_nat n \<noteq> []"
  by (subst show_nat.simps) simp

lemma read_nat_show_nat: "read_nat (show_nat n) = n"
proof (induction n rule: show_nat.induct)
  case (1 n)
  show ?case
  proof (cases "n < 10")
    case True
    then show ?thesis by (subst show_nat.simps) (simp add: read_nat_def of_char_digit_char)
  next
    case False
    have m: "n mod 10 < 10" by simp
    from False 1 have ih: "read_nat (show_nat (n div 10)) = n div 10" by simp
    have "read_nat (show_nat n) = 10 * read_nat (show_nat (n div 10)) + n mod 10"
      using False by (subst show_nat.simps) (simp add: read_nat_def of_char_digit_char [OF m])
    with ih show ?thesis by simp
  qed
qed

lemma show_nat_inj: "show_nat n = show_nat m \<Longrightarrow> n = m"
  by (metis read_nat_show_nat)

lemma takeWhile_digits: "\<forall>c \<in> set ds. is_digit c \<Longrightarrow> sep r \<Longrightarrow> takeWhile is_digit (ds @ r) = ds"
  by (cases r) (simp_all add: takeWhile_append2 takeWhile_eq_all_conv [THEN iffD2])

lemma show_nat_unique:
  assumes "show_nat n @ r = show_nat m @ r'" "sep r" "sep r'"
  shows "n = m \<and> r = r'"
proof -
  have "takeWhile is_digit (show_nat n @ r) = show_nat n"
    using assms(2) by (rule takeWhile_digits [OF show_nat_digits])
  moreover have "takeWhile is_digit (show_nat m @ r') = show_nat m"
    using assms(3) by (rule takeWhile_digits [OF show_nat_digits])
  ultimately have "show_nat n = show_nat m" using assms(1) by simp
  with assms(1) show ?thesis by (simp add: show_nat_inj)
qed

lemma show_nat_hd: "\<exists>c cs. show_nat n = c # cs \<and> is_digit c"
  using show_nat_nonempty [of n] show_nat_digits [of n] by (cases "show_nat n") auto

lemma show_int_unique:
  assumes "show_int a @ r = show_int b @ r'" "sep r" "sep r'"
  shows "a = b \<and> r = r'"
proof -
  have minus: "\<not> is_digit CHR ''-''" by (simp add: is_digit_def)
  consider "a < 0" "b < 0" | "a < 0" "\<not> b < 0" | "\<not> a < 0" "b < 0" | "\<not> a < 0" "\<not> b < 0"
    by blast
  then show ?thesis
  proof cases
    case 1
    with assms have "nat (- a) = nat (- b) \<and> r = r'"
      by (intro show_nat_unique) (simp_all add: show_int_def)
    with 1 show ?thesis by arith
  next
    case 2
    with assms(1) show_nat_hd [of "nat b"] minus show ?thesis
      by (auto simp: show_int_def)
  next
    case 3
    with assms(1) show_nat_hd [of "nat a"] minus show ?thesis
      by (auto simp: show_int_def)
  next
    case 4
    with assms have "nat a = nat b \<and> r = r'"
      by (intro show_nat_unique) (simp_all add: show_int_def)
    with 4 show ?thesis by arith
  qed
qed

lemma show_int_hd: "\<exists>c cs. show_int a = c # cs \<and> (c = CHR ''-'' \<or> is_digit c)"
  using show_nat_hd [of "nat a"] by (auto simp: show_int_def)


lemma hex_char_inj: "a < 16 \<Longrightarrow> b < 16 \<Longrightarrow> hex_char a = hex_char b \<Longrightarrow> a = b"
  by (auto simp: hex_char_def split: if_splits)

lemma quote_char_hd: "\<exists>c cs. quote_char x = c # cs \<and> c \<noteq> CHR 0x22"
  by (auto simp: quote_char_def)

lemma control_char_eq:
  assumes "(of_char x :: nat) < 32" "(of_char y :: nat) < 32"
    and "hex_char (of_char x div 16) = hex_char (of_char y div 16)"
    and "hex_char (of_char x mod 16) = hex_char (of_char y mod 16)"
  shows "x = y"
proof -
  have "(of_char x :: nat) div 16 = of_char y div 16"
    using assms(1,2) by (intro hex_char_inj [OF _ _ assms(3)]) simp_all
  moreover have "(of_char x :: nat) mod 16 = of_char y mod 16"
    by (intro hex_char_inj [OF _ _ assms(4)]) simp_all
  ultimately have "(of_char x :: nat) = of_char y"
    by (metis div_mult_mod_eq)
  then show ?thesis by simp
qed

lemma quote_char_cases:
  "quote_char c =
     (case short_escape c of
        Some d \<Rightarrow> [CHR 0x5C, d]
      | None \<Rightarrow>
          if of_char c < (32::nat) then
            [CHR 0x5C, CHR ''u'', CHR ''0'', CHR ''0'',
             hex_char (of_char c div 16), hex_char (of_char c mod 16)]
          else [c])"
  by (simp add: quote_char_def short_escape_def)

lemma short_escape_inj: "short_escape x = Some d \<Longrightarrow> short_escape y = Some d \<Longrightarrow> x = y"
  by (auto simp: short_escape_def split: if_splits)

lemma short_escape_Some: "short_escape x = Some d \<Longrightarrow> d \<noteq> CHR ''u''"
  by (auto simp: short_escape_def split: if_splits)

lemma short_escape_None: "short_escape x = None \<Longrightarrow> x \<noteq> CHR 0x5C"
  by (auto simp: short_escape_def split: if_splits)

lemma quote_char_unique: "quote_char x @ r = quote_char y @ r' \<Longrightarrow> x = y"
  unfolding quote_char_cases
  by (auto split: option.splits if_splits
      dest: short_escape_inj short_escape_Some short_escape_None control_char_eq)

lemma quoted_unique:
  "concat (map quote_char s) @ CHR 0x22 # r = concat (map quote_char t) @ CHR 0x22 # r'
    \<Longrightarrow> s = t \<and> r = r'"
proof (induction s arbitrary: t)
  case Nil
  show ?case
  proof (cases t)
    case Nil
    with Nil.prems show ?thesis by simp
  next
    case (Cons y t')
    with Nil.prems quote_char_hd [of y] show ?thesis by auto
  qed
next
  case (Cons x s')
  show ?case
  proof (cases t)
    case Nil
    with Cons.prems quote_char_hd [of x] show ?thesis by auto
  next
    case (Cons y t')
    with Cons.prems have eq: "quote_char x @ (concat (map quote_char s') @ CHR 0x22 # r)
        = quote_char y @ (concat (map quote_char t') @ CHR 0x22 # r')"
      by simp
    then have xy: "x = y" by (rule quote_char_unique)
    with eq have "concat (map quote_char s') @ CHR 0x22 # r
        = concat (map quote_char t') @ CHR 0x22 # r'"
      by simp
    then have "s' = t' \<and> r = r'" by (rule Cons.IH)
    with xy Cons show ?thesis by simp
  qed
qed

lemma quote_unique: "quote s @ r = quote t @ r' \<Longrightarrow> s = t \<and> r = r'"
  using quoted_unique [of s r t r'] by (simp add: quote_def)


lemma commas_Cons:
  "commas (p x # map p xs) @ r = p x @ (if xs = [] then r else CHR '','' # commas (map p xs) @ r)"
  by (cases xs) simp_all

lemma joined_unique:
  assumes inj: "\<And>x y r r'. x \<in> set xs \<Longrightarrow> p x @ r = p y @ r' \<Longrightarrow> sep r \<Longrightarrow> sep r' \<Longrightarrow> x = y \<and> r = r'"
    and hd: "\<And>z. \<exists>c cs. p z = c # cs \<and> c \<noteq> close"
    and close: "close \<noteq> CHR '',''" "\<not> is_digit close"
    and eq: "commas (map p xs) @ close # r = commas (map p ys) @ close # r'"
  shows "xs = ys \<and> r = r'"
  using inj eq
proof (induction xs arbitrary: ys)
  case Nil
  show ?case
  proof (cases ys)
    case Nil
    with Nil.prems show ?thesis by simp
  next
    case (Cons y ys')
    with Nil.prems(2) hd [of y] show ?thesis
      by (cases ys') auto
  qed
next
  case (Cons x xs')
  have comma: "\<not> is_digit CHR '',''" by (simp add: is_digit_def)
  show ?case
  proof (cases ys)
    case Nil
    with Cons.prems(2) hd [of x] show ?thesis
      by (cases xs') auto
  next
    case (Cons y ys')
    let ?t = "if xs' = [] then close # r else CHR '','' # commas (map p xs') @ close # r"
    let ?t' = "if ys' = [] then close # r' else CHR '','' # commas (map p ys') @ close # r'"
    from Cons Cons.prems(2) have "p x @ ?t = p y @ ?t'"
      using commas_Cons [of p x xs' "close # r"] commas_Cons [of p y ys' "close # r'"] by simp
    moreover have "sep ?t" "sep ?t'" using close comma by simp_all
    ultimately have xy: "x = y \<and> ?t = ?t'"
      by (intro Cons.prems(1)) simp_all
    show ?thesis
    proof (cases "xs' = []")
      case True
      with xy close Cons show ?thesis by (auto split: if_splits)
    next
      case False
      with xy close have ne: "ys' \<noteq> []"
        and rest: "commas (map p xs') @ close # r = commas (map p ys') @ close # r'"
        by (auto split: if_splits)
      have "xs' = ys' \<and> r = r'"
      proof (rule Cons.IH [OF _ rest])
        fix a b s s'
        assume "a \<in> set xs'" "p a @ s = p b @ s'" "sep s" "sep s'"
        then show "a = b \<and> s = s'" by (intro Cons.prems(1)) simp_all
      qed
      with xy Cons show ?thesis by simp
    qed
  qed
qed

lemma stringify_JObj: "stringify (JObj kvs) = CHR ''{'' # commas (map member_text kvs) @ ''}''"
proof -
  have "(\<lambda>(k, v). quote k @ CHR '':'' # stringify v) = member_text"
    by (auto simp: member_text_def)
  then show ?thesis by simp
qed

lemma stringify_hd:
  "\<exists>c cs. stringify j = c # cs \<and> c \<noteq> CHR '']'' \<and> c \<noteq> CHR ''}''"
proof (cases j)
  case (JNum n)
  with show_int_hd [of n] show ?thesis by (auto simp: is_digit_def)
qed (auto simp: quote_def)

lemma member_text_hd: "\<exists>c cs. member_text kv = c # cs \<and> c \<noteq> CHR ''}''"
  by (simp add: member_text_def quote_def)

lemma lead_digit: "c = CHR ''-'' \<or> is_digit c \<Longrightarrow> lead c = 2"
  by (auto simp: lead_def is_digit_def)

lemma stringify_lead: "\<exists>c cs. stringify j = c # cs \<and> lead c = ctor j"
proof (cases j)
  case (JNum n)
  with show_int_hd [of n] show ?thesis by (auto simp: lead_digit)
qed (simp_all add: quote_def lead_def)

lemma same_ctor:
  assumes "stringify j @ r = stringify j' @ r'"
  shows "ctor j' = ctor j"
proof -
  obtain c cs where c: "stringify j = c # cs" "lead c = ctor j"
    using stringify_lead by blast
  obtain c' cs' where c': "stringify j' = c' # cs'" "lead c' = ctor j'"
    using stringify_lead by blast
  from assms c(1) c'(1) have "c = c'" by simp
  with c(2) c'(2) show ?thesis by simp
qed

lemma stringify_unique:
  "stringify j @ r = stringify j' @ r' \<Longrightarrow> sep r \<Longrightarrow> sep r' \<Longrightarrow> j = j' \<and> r = r'"
proof (induction j arbitrary: j' r r')
  case JNull
  from same_ctor [OF JNull.prems(1)] have "j' = JNull" by (cases j') simp_all
  with JNull.prems show ?case by simp
next
  case (JBool b)
  from same_ctor [OF JBool.prems(1)] obtain b' where "j' = JBool b'" by (cases j') simp_all
  with JBool.prems show ?case by (simp split: if_splits)
next
  case (JNum n)
  from same_ctor [OF JNum.prems(1)] obtain m where m: "j' = JNum m" by (cases j') simp_all
  with JNum.prems(1) have "show_int n @ r = show_int m @ r'" by simp
  then have "n = m \<and> r = r'" using JNum.prems(2,3) by (rule show_int_unique)
  with m show ?case by simp
next
  case (JStr s)
  from same_ctor [OF JStr.prems(1)] obtain t where t: "j' = JStr t" by (cases j') simp_all
  with JStr.prems(1) have "quote s @ r = quote t @ r'" by simp
  then have "s = t \<and> r = r'" by (rule quote_unique)
  with t show ?case by simp
next
  case (JArr xs)
  from same_ctor [OF JArr.prems(1)] obtain ys where ys: "j' = JArr ys" by (cases j') simp_all
  with JArr.prems have "commas (map stringify xs) @ CHR '']'' # r = commas (map stringify ys) @ CHR '']'' # r'"
    by simp
  then have "xs = ys \<and> r = r'"
  proof (rule joined_unique [rotated -1])
    fix x y s s'
    assume "x \<in> set xs" "stringify x @ s = stringify y @ s'" "sep s" "sep s'"
    then show "x = y \<and> s = s'" by (rule JArr.IH)
  next
    fix z show "\<exists>c cs. stringify z = c # cs \<and> c \<noteq> CHR '']''"
      using stringify_hd [of z] by auto
  qed (simp_all add: is_digit_def)
  with ys show ?case by simp
next
  case (JObj kvs)
  from same_ctor [OF JObj.prems(1)] obtain kvs' where kvs': "j' = JObj kvs'" by (cases j') simp_all
  from JObj.prems(1) have "commas (map member_text kvs) @ CHR ''}'' # r = commas (map member_text kvs') @ CHR ''}'' # r'"
    unfolding kvs' stringify_JObj by simp
  then have "kvs = kvs' \<and> r = r'"
  proof (rule joined_unique [rotated -1])
    fix x y s s'
    assume x: "x \<in> set kvs" and eq: "member_text x @ s = member_text y @ s'" and s: "sep s" "sep s'"
    from eq have "quote (fst x) @ (CHR '':'' # stringify (snd x) @ s)
        = quote (fst y) @ (CHR '':'' # stringify (snd y) @ s')"
      by (simp add: member_text_def)
    then have "fst x = fst y \<and> CHR '':'' # stringify (snd x) @ s = CHR '':'' # stringify (snd y) @ s'"
      by (rule quote_unique)
    then have k: "fst x = fst y" and v: "stringify (snd x) @ s = stringify (snd y) @ s'"
      by simp_all
    have "snd x \<in> Basic_BNFs.snds x" by (cases x) simp
    with x v s have "snd x = snd y \<and> s = s'" by (intro JObj.IH)
    with k show "x = y \<and> s = s'" by (simp add: prod_eq_iff)
  next
    fix z show "\<exists>c cs. member_text z = c # cs \<and> c \<noteq> CHR ''}''" by (rule member_text_hd)
  qed (simp_all add: is_digit_def)
  with kvs' show ?case by simp
qed

lemma stringify_inj: "stringify a = stringify b \<longleftrightarrow> a = b"
  using stringify_unique [of a "[]" b "[]"] by auto

section \<open>The auth-event callback\<close>

lemmas scenario_defs = blank_def ssr_def no_ssr_def user_u1_def user_u2_def tokens_def
  session_of_def reordered_session_of_def user_response_def session_response_def error_response_def signed_in_def

lemma stringify_cell_after:
  "stringify (currentSession (on_auth_state_change st (ev, s))) = stringify s"
  by (simp add: on_auth_state_change_def Let_def)

text \<open>
  Claim C6 (idempotent event application), as the code has it. The callback compares the
  \<open>JSON.stringify\<close> texts of the two sessions, so what it skips is an event whose
  session equals the session held with its properties in the same order: such an event
  leaves the session cell and the user cell as they are, and the second of two deliveries
  of the same session changes neither cell, whatever the first did and whatever the two
  event kinds are. Any other session is stored, so the session cell stays as it was only
  for a session equal to it in this sense.
\<close>

theorem idempotent_event_application:
  "currentSession (on_auth_state_change st (ev, currentSession st)) = currentSession st
   \<and> currentUser (on_auth_state_change st (ev, currentSession st)) = currentUser st
   \<and> currentSession (on_auth_state_change (on_auth_state_change st (ev, s)) (ev', s))
       = currentSession (on_auth_state_change st (ev, s))
   \<and> currentUser (on_auth_state_change (on_auth_state_change st (ev, s)) (ev', s))
       = currentUser (on_auth_state_change st (ev, s))
   \<and> (currentSession (on_auth_state_change st (ev, s)) = currentSession st
        \<longleftrightarrow> s = currentSession st)"
proof -
  have skip: "\<And>t e. currentSession (on_auth_state_change t (e, currentSession t)) = currentSession t
      \<and> currentUser (on_auth_state_change t (e, currentSession t)) = currentUser t"
    by (simp add: on_auth_state_change_def Let_def)
  let ?t = "on_auth_state_change st (ev, s)"
  have stored: "currentSession ?t = s"
    using stringify_cell_after [of st ev s] by (simp add: stringify_inj)
  then have "currentSession ?t = currentSession st \<longleftrightarrow> s = currentSession st"
    by simp
  with stored skip [of ?t ev'] skip [of st ev] show ?thesis by simp
qed

text \<open>
  For deep structural equality the claim fails: a session deep-equal to the session held,
  with its properties in another order, has another text, and the callback writes the
  cells again; the session cell then holds the reordered session.
\<close>

theorem idempotent_event_reordered_counterexample:
  "deep_equal (reordered_session_of user_u1) (currentSession signed_in)
   \<and> currentSession (on_auth_state_change signed_in
         (''TOKEN_REFRESHED'', reordered_session_of user_u1)) = reordered_session_of user_u1
   \<and> currentSession (on_auth_state_change signed_in
         (''TOKEN_REFRESHED'', reordered_session_of user_u1)) \<noteq> currentSession signed_in"
  by (simp add: on_auth_state_change_def Let_def stringify_inj scenario_defs)

text \<open>
  Claim C7 (event update). An event whose session differs from the session held replaces
  the session cell by the incoming session and the user cell by the user embedded in it,
  which is \<open>null\<close> when the incoming session is \<open>null\<close> (or carries no user).
\<close>

theorem event_update:
  assumes "s \<noteq> currentSession st"
  shows "currentSession (on_auth_state_change st (ev, s)) = s
    \<and> currentUser (on_auth_state_change st (ev, s)) =
        (case s of
           JObj kvs \<Rightarrow> (case map_of kvs ''user'' of Some u \<Rightarrow> u | None \<Rightarrow> JNull)
         | _ \<Rightarrow> JNull)"
proof -
  from assms have "stringify (currentSession st) \<noteq> stringify s"
    by (simp add: stringify_inj)
  then show ?thesis
    by (cases s) (simp_all add: on_auth_state_change_def Let_def split: option.splits)
qed

text \<open>
  The sign-out scenario: \<open>SIGNED_OUT\<close> with a \<open>null\<close> session arrives while a
  session and its user are held, and both cells become \<open>null\<close>.
\<close>

theorem event_update_witness:
  "JNull \<noteq> currentSession signed_in
   \<and> currentSession signed_in = session_of user_u1
   \<and> currentUser signed_in = user_u1
   \<and> currentSession (on_auth_state_change signed_in (''SIGNED_OUT'', JNull)) = JNull
   \<and> currentUser (on_auth_state_change signed_in (''SIGNED_OUT'', JNull)) = JNull"
proof -
  have h: "JNull \<noteq> currentSession signed_in"
    by (simp add: signed_in_def session_of_def)
  from event_update [OF h, of "''SIGNED_OUT''"] h show ?thesis
    by (simp add: signed_in_def)
qed

text \<open>
  Claim C9 (the event kind does not interfere). Two events with the same session and any
  two event kinds, applied to the same state, leave the same session cell and the same
  user cell: the kind only reaches the log.
\<close>

theorem event_kind_noninterference:
  "currentSession (on_auth_state_change st (ev, s)) = currentSession (on_auth_state_change st (ev', s))
   \<and> currentUser (on_auth_state_change st (ev, s)) = currentUser (on_auth_state_change st (ev', s))"
  by (simp add: on_auth_state_change_def Let_def)

section \<open>The initialisation of the client-side plugin\<close>

lemma truthy_not_null: "truthy (Some v) \<Longrightarrow> v \<noteq> JNull"
  by (cases v) simp_all

lemma dot_value [simp]: "v \<noteq> JNull \<Longrightarrow> dot (Some v) k = Inr (get_prop v k)"
  by (cases v) simp_all

lemma opt_dot_value [simp]: "v \<noteq> JNull \<Longrightarrow> opt_dot (Some v) k = get_prop v k"
  by (cases v) simp_all

lemma destructure_value [simp]:
  "v \<noteq> JNull \<Longrightarrow> destructure v a b = Inr (get_prop v a, get_prop v b)"
  by (cases v) simp_all

lemma opt_dot_SomeD:
  "opt_dot x k = Some v \<Longrightarrow> \<exists>d. x = Some d \<and> d \<noteq> JNull \<and> get_prop d k = Some v"
  by (cases "(x, k)" rule: opt_dot.cases) auto

lemma user_givenD:
  assumes "user_given getUser = Some a"
  obtains response d where "getUser = Fulfilled response" "response \<noteq> JNull"
    "\<not> truthy (get_prop response ''error'')" "get_prop response ''data'' = Some d"
    "d \<noteq> JNull" "get_prop d ''user'' = Some a" "truthy (Some a)"
proof -
  from assms obtain response where r: "getUser = Fulfilled response" "response \<noteq> JNull"
      "\<not> truthy (get_prop response ''error'')"
      and u: "opt_dot (get_prop response ''data'') ''user'' = Some a" "truthy (Some a)"
    by (auto simp: user_given_def Let_def split: settled.splits if_splits)
  from opt_dot_SomeD [OF u(1)] r u(2) that show thesis by blast
qed

lemma session_givenD:
  assumes "session_given getSession = Session s"
  obtains response d where "getSession = Fulfilled response" "response \<noteq> JNull"
    "get_prop response ''data'' = Some d" "d \<noteq> JNull" "get_prop d ''session'' = Some s"
    "truthy (Some s)"
proof -
  from assms obtain response where r: "getSession = Fulfilled response" "response \<noteq> JNull"
      and u: "opt_dot (get_prop response ''data'') ''session'' = Some s" "truthy (Some s)"
    by (auto simp: session_given_def split: settled.splits if_splits option.splits)
  from opt_dot_SomeD [OF u(1)] r u(2) that show thesis by blast
qed

lemma no_sessionD:
  assumes "session_given getSession = NoSession"
  obtains response where "getSession = Fulfilled response" "response \<noteq> JNull"
    "\<not> truthy (opt_dot (get_prop response ''data'') ''session'')"
  using assms that
  by (auto simp: session_given_def split: settled.splits if_splits option.splits)

lemmas client_defs = setup_client_def verify_def authenticated_def check_mismatch_def
  construct_session_def no_user_def provide_def Let_def info_def warn_def error_def
  new_entries_def

text \<open>
  Claim C2 (divergence preference). When \<open>getUser()\<close> gives the user \<open>a\<close> and
  \<open>getSession()\<close> gives a session whose embedded user \<open>b\<close> has another \<open>id\<close>,
  the user cell holds \<open>a\<close> and the session cell holds the session without its user. The
  divergence is logged as a warning, and nothing is logged as an error.
\<close>

theorem divergence_preference:
  assumes "user_given getUser = Some a" and "session_given getSession = Session s"
    and "get_prop s ''user'' = Some b" and "b \<noteq> JNull"
    and "get_prop b ''id'' \<noteq> get_prop a ''id''"
  shows "currentUser (setup_client cfg now getUser getSession st) = a
    \<and> Inr (currentSession (setup_client cfg now getUser getSession st)) = rest_without_user (Some s)
    \<and> (WARN, ''User ID mismatch between getUser and getSession'',
         Data [(''getUserId'', get_prop a ''id''), (''getSessionUserId'', get_prop b ''id'')])
        \<in> set (new_entries st (setup_client cfg now getUser getSession st))
    \<and> (\<forall>e \<in> set (new_entries st (setup_client cfg now getUser getSession st)). fst e \<noteq> ERROR)"
proof -
  from assms(1) obtain ur d where u: "getUser = Fulfilled ur" "ur \<noteq> JNull"
    "\<not> truthy (get_prop ur ''error'')" "get_prop ur ''data'' = Some d"
    "d \<noteq> JNull" "get_prop d ''user'' = Some a" "truthy (Some a)"
    by (rule user_givenD)
  from assms(2) obtain sr sd where s: "getSession = Fulfilled sr" "sr \<noteq> JNull"
    "get_prop sr ''data'' = Some sd" "sd \<noteq> JNull" "get_prop sd ''session'' = Some s"
    "truthy (Some s)"
    by (rule session_givenD)
  from u(7) have a: "a \<noteq> JNull" by (rule truthy_not_null)
  from s(6) have s': "s \<noteq> JNull" by (rule truthy_not_null)
  from s' obtain w where w: "rest_without_user (Some s) = Inr w"
    by (cases s) simp_all
  show ?thesis
    using u s a s' w assms(3-5) by (simp add: client_defs)
qed

theorem divergence_preference_witness:
  "user_given (user_response user_u1) = Some user_u1
   \<and> session_given (session_response (session_of user_u2)) = Session (session_of user_u2)
   \<and> get_prop (session_of user_u2) ''user'' = Some user_u2
   \<and> user_u2 \<noteq> JNull
   \<and> get_prop user_u2 ''id'' \<noteq> get_prop user_u1 ''id''
   \<and> currentUser (setup_client ssr 1700000000123 (user_response user_u1)
        (session_response (session_of user_u2)) blank) = user_u1
   \<and> currentSession (setup_client ssr 1700000000123 (user_response user_u1)
        (session_response (session_of user_u2)) blank) = tokens"
proof -
  have h1: "user_given (user_response user_u1) = Some user_u1"
    by (simp add: user_given_def scenario_defs)
  have h2: "session_given (session_response (session_of user_u2)) = Session (session_of user_u2)"
    by (simp add: session_given_def scenario_defs)
  have h3: "get_prop (session_of user_u2) ''user'' = Some user_u2"
    by (simp add: scenario_defs)
  have h4: "user_u2 \<noteq> JNull"
    by (simp add: scenario_defs)
  have h5: "get_prop user_u2 ''id'' \<noteq> get_prop user_u1 ''id''"
    by (simp add: scenario_defs)
  have "rest_without_user (Some (session_of user_u2)) = Inr tokens"
    by (simp add: scenario_defs)
  with divergence_preference [OF h1 h2 h3 h4 h5, of ssr 1700000000123 blank] h1 h2 h3 h4 h5
  show ?thesis by simp
qed

text \<open>
  Claim C3 (placeholder synthesis), as the code has it. When \<open>getUser()\<close> gives the
  user \<open>a\<close> and \<open>getSession()\<close> returns without a session, as it does when it
  returns an error payload, the user cell holds \<open>a\<close> and the session cell holds the
  placeholder: empty access and refresh tokens, the token type \<open>bearer\<close>, a lifetime
  of 3600 seconds and an expiry 3600 seconds after the current time in seconds; nothing but
  information records is logged. When \<open>getSession()\<close> does not return, because its
  promise is rejected (or fulfils with \<open>null\<close>), the failure is not contained: the
  \<open>await\<close> throws inside the one \<open>try\<close> block and both cells are \<open>null\<close>.
\<close>

theorem placeholder_synthesis:
  assumes "user_given getUser = Some a"
  shows "(session_given getSession = NoSession \<longrightarrow>
      currentUser (setup_client cfg now getUser getSession st) = a
      \<and> currentSession (setup_client cfg now getUser getSession st) =
          JObj [(''access_token'', JStr []),
                (''refresh_token'', JStr []),
                (''expires_in'', JNum 3600),
                (''expires_at'', JNum (now div 1000 + 3600)),
                (''token_type'', JStr ''bearer'')]
      \<and> (\<forall>e \<in> set (new_entries st (setup_client cfg now getUser getSession st)).
            fst e = INFO))
    \<and> (session_given getSession = NoResult \<longrightarrow>
      currentUser (setup_client cfg now getUser getSession st) = JNull
      \<and> currentSession (setup_client cfg now getUser getSession st) = JNull)"
proof -
  from assms obtain ur d where u: "getUser = Fulfilled ur" "ur \<noteq> JNull"
    "\<not> truthy (get_prop ur ''error'')" "get_prop ur ''data'' = Some d"
    "d \<noteq> JNull" "get_prop d ''user'' = Some a" "truthy (Some a)"
    by (rule user_givenD)
  from u(7) have a: "a \<noteq> JNull" by (rule truthy_not_null)
  have returned: "currentUser (setup_client cfg now getUser getSession st) = a
      \<and> currentSession (setup_client cfg now getUser getSession st) =
          JObj [(''access_token'', JStr []),
                (''refresh_token'', JStr []),
                (''expires_in'', JNum 3600),
                (''expires_at'', JNum (now div 1000 + 3600)),
                (''token_type'', JStr ''bearer'')]
      \<and> (\<forall>e \<in> set (new_entries st (setup_client cfg now getUser getSession st)).
            fst e = INFO)"
    if "session_given getSession = NoSession"
  proof -
    from that obtain sr where s: "getSession = Fulfilled sr" "sr \<noteq> JNull"
      "\<not> truthy (opt_dot (get_prop sr ''data'') ''session'')"
      by (rule no_sessionD)
    show ?thesis
      using u s a by (simp add: client_defs placeholder_def)
  qed
  have thrown: "currentUser (setup_client cfg now getUser getSession st) = JNull
      \<and> currentSession (setup_client cfg now getUser getSession st) = JNull"
    if "session_given getSession = NoResult"
  proof (cases getSession)
    case (Rejected r)
    with u show ?thesis by (simp add: client_defs)
  next
    case (Fulfilled sr)
    with that have "sr = JNull"
      by (auto simp: session_given_def split: if_splits option.splits)
    with Fulfilled u show ?thesis by (simp add: client_defs)
  qed
  from returned thrown show ?thesis by blast
qed

theorem placeholder_synthesis_witness:
  "user_given (user_response user_u1) = Some user_u1
   \<and> session_given (error_response ''session'' ''Auth session missing!'') = NoSession
   \<and> currentUser (setup_client ssr 1700000000123 (user_response user_u1)
        (error_response ''session'' ''Auth session missing!'') blank) = user_u1
   \<and> currentSession (setup_client ssr 1700000000123 (user_response user_u1)
        (error_response ''session'' ''Auth session missing!'') blank) =
        JObj [(''access_token'', JStr []),
              (''refresh_token'', JStr []),
              (''expires_in'', JNum 3600),
              (''expires_at'', JNum 1700003600),
              (''token_type'', JStr ''bearer'')]
   \<and> session_given (Rejected (JStr ''Failed to fetch'')) = NoResult
   \<and> currentUser (setup_client ssr 1700000000123 (user_response user_u1)
        (Rejected (JStr ''Failed to fetch'')) blank) = JNull
   \<and> currentSession (setup_client ssr 1700000000123 (user_response user_u1)
        (Rejected (JStr ''Failed to fetch'')) blank) = JNull"
proof -
  have h1: "user_given (user_response user_u1) = Some user_u1"
    by (simp add: user_given_def scenario_defs)
  have h2: "session_given (error_response ''session'' ''Auth session missing!'') = NoSession"
    by (simp add: session_given_def scenario_defs)
  have h3: "session_given (Rejected (JStr ''Failed to fetch'')) = NoResult"
    by (simp add: session_given_def)
  from placeholder_synthesis [OF h1, of "error_response ''session'' ''Auth session missing!''"
         ssr 1700000000123 blank]
       placeholder_synthesis [OF h1, of "Rejected (JStr ''Failed to fetch'')"
         ssr 1700000000123 blank]
       h1 h2 h3
  show ?thesis by simp
qed

text \<open>
  The claim as stated fails for a \<open>getSession()\<close> that fails by rejecting:
  \<open>getUser()\<close> gave a user, and the cells hold neither the user nor a placeholder.
\<close>

theorem placeholder_synthesis_rejection_counterexample:
  "user_given (user_response user_u1) = Some user_u1
   \<and> user_u1 \<noteq> JNull
   \<and> currentUser (setup_client ssr 1700000000123 (user_response user_u1)
        (Rejected (JStr ''Failed to fetch'')) blank) = JNull
   \<and> currentSession (setup_client ssr 1700000000123 (user_response user_u1)
        (Rejected (JStr ''Failed to fetch'')) blank) = JNull"
  by (simp add: user_given_def client_defs scenario_defs)

lemma verify_no_user:
  assumes "user_given getUser = None" and "verify now getUser getSession f = (f', r)"
  shows "session f' = session f \<and> user f' = user f
    \<and> (\<exists>es. trace f' = trace f @ es
          \<and> (r = None \<longrightarrow> (INFO, ''No active user found'', NoPayload) \<in> set es))"
proof (cases getUser)
  case (Rejected x)
  with assms(2) show ?thesis by (auto simp: client_defs)
next
  case (Fulfilled ur)
  show ?thesis
  proof (cases "ur = JNull")
    case True
    with Fulfilled assms(2) show ?thesis by (auto simp: client_defs)
  next
    case False
    show ?thesis
    proof (cases getSession)
      case (Rejected x)
      with Fulfilled False assms(2) show ?thesis by (auto simp: client_defs)
    next
      case sr: (Fulfilled sr)
      show ?thesis
      proof (cases "sr = JNull")
        case True
        with Fulfilled False sr assms(2) show ?thesis by (auto simp: client_defs)
      next
        case srn: False
        show ?thesis
        proof (cases "truthy (get_prop ur ''error'')")
          case True
          with Fulfilled False sr srn assms(2) show ?thesis
            by (auto simp: client_defs split: option.splits)
        next
          case ne: False
          with Fulfilled False assms(1)
          have nu: "\<not> truthy (opt_dot (get_prop ur ''data'') ''user'')"
            by (auto simp: user_given_def Let_def split: if_splits)
          show ?thesis
          proof (cases "get_prop ur ''data''")
            case None
            with Fulfilled False sr srn ne assms(2) show ?thesis by (auto simp: client_defs)
          next
            case (Some d)
            show ?thesis
            proof (cases "d = JNull")
              case True
              with Some Fulfilled False sr srn ne assms(2) show ?thesis
                by (auto simp: client_defs)
            next
              case dn: False
              with Some nu have "\<not> truthy (get_prop d ''user'')" by simp
              with dn Some Fulfilled False sr srn ne assms(2) show ?thesis
                by (auto simp: client_defs split: option.splits)
            qed
          qed
        qed
      qed
    qed
  qed
qed

text \<open>
  The placeholder is for a \<open>getSession()\<close> that returns. When its promise is
  rejected the \<open>await\<close> throws inside the \<open>try\<close> block, and the cells get
  neither the user nor a session.
\<close>

lemma getSession_rejected_resets:
  assumes "user_given getUser = Some a"
  shows "currentSession (setup_client cfg now getUser (Rejected r) st) = JNull
    \<and> currentUser (setup_client cfg now getUser (Rejected r) st) = JNull"
proof -
  from assms obtain ur where "getUser = Fulfilled ur" "ur \<noteq> JNull"
    by (rule user_givenD)
  then show ?thesis by (simp add: client_defs)
qed



text \<open>
  Claim C5 (atomic reset on an unexpected failure). When the \<open>try\<close> block of the
  initialisation throws, whatever it throws and whatever it had assigned before, the
  \<open>catch\<close> logs the error and both cells are \<open>null\<close>; \<open>setup\<close> goes on to register
  the callback, so nothing is thrown to its caller.
\<close>

theorem atomic_reset:
  assumes "snd (verify now getUser getSession
                  \<lparr>session = JNull, user = JNull, trace = logged st\<rparr>) = Some e"
  shows "currentSession (setup_client cfg now getUser getSession st) = JNull
    \<and> currentUser (setup_client cfg now getUser getSession st) = JNull
    \<and> subscribed (setup_client cfg now getUser getSession st)
    \<and> last (logged (setup_client cfg now getUser getSession st))
        = (ERROR, ''Authentication initialization error:'', error_payload e)"
  using assms
  by (cases "verify now getUser getSession \<lparr>session = JNull, user = JNull, trace = logged st\<rparr>")
     (simp add: setup_client_def provide_def Let_def error_def)

text \<open>
  A session without a user makes the comparison of the identities throw after \<open>user\<close>
  was assigned: the block ends with a user and no session, and the cells get neither.
\<close>

theorem atomic_reset_witness:
  "snd (verify 1700000000123 (user_response user_u1) (session_response tokens)
          \<lparr>session = JNull, user = JNull, trace = logged blank\<rparr>) = Some TypeError
   \<and> user (fst (verify 1700000000123 (user_response user_u1) (session_response tokens)
          \<lparr>session = JNull, user = JNull, trace = logged blank\<rparr>)) = user_u1
   \<and> currentSession (setup_client ssr 1700000000123 (user_response user_u1)
        (session_response tokens) blank) = JNull
   \<and> currentUser (setup_client ssr 1700000000123 (user_response user_u1)
        (session_response tokens) blank) = JNull
   \<and> subscribed (setup_client ssr 1700000000123 (user_response user_u1)
        (session_response tokens) blank)"
proof -
  have v: "verify 1700000000123 (user_response user_u1) (session_response tokens)
          \<lparr>session = JNull, user = JNull, trace = logged blank\<rparr>
      = (\<lparr>session = JNull, user = user_u1,
           trace = [(INFO, ''Verifying user authentication'', NoPayload),
                    (INFO, ''Authentication verification'',
                     Data [(''hasUserData'', Some (JBool True)),
                           (''hasSessionData'', Some (JBool True)),
                           (''userError'', None), (''sessionError'', None),
                           (''userMatch'', Some (JBool False))]),
                    (INFO, ''User authenticated successfully'',
                     Data [(''userId'', Some (JStr ''u1''))])]\<rparr>, Some TypeError)"
    by (simp add: client_defs scenario_defs)
  then have h: "snd (verify 1700000000123 (user_response user_u1) (session_response tokens)
          \<lparr>session = JNull, user = JNull, trace = logged blank\<rparr>) = Some TypeError"
    by simp
  from atomic_reset [OF h, of ssr] h v show ?thesis by simp
qed

section \<open>Null safety\<close>

lemma construct_session_user:
  assumes "construct_session now sessionData f = (f', None)"
  shows "user f' = user f \<and> (session f' = session f \<or> user f \<noteq> JNull)"
  using assms
  by (auto simp: construct_session_def dest: truthy_not_null split: if_splits sum.splits)

lemma check_mismatch_locals:
  assumes "check_mismatch sessionData f = (f', r)"
  shows "user f' = user f \<and> session f' = session f"
  using assms
  by (auto simp: check_mismatch_def split: if_splits sum.splits)

lemma authenticated_user:
  assumes "authenticated now u sessionData f = (f', None)" and "u \<noteq> JNull"
  shows "user f' = u"
proof -
  let ?f2 = "f\<lparr>user := u,
      trace := info ''User authenticated successfully'' (Data [(''userId'', get_prop u ''id'')])
                 (trace f)\<rparr>"
  obtain f3 r where c: "check_mismatch sessionData ?f2 = (f3, r)"
    by (cases "check_mismatch sessionData ?f2")
  from check_mismatch_locals [OF c] have u3: "user f3 = u" by simp
  from assms c have "r = None" "construct_session now sessionData f3 = (f', None)"
    by (auto simp: authenticated_def Let_def split: option.splits)
  from construct_session_user [OF this(2)] u3 show ?thesis by simp
qed

lemma verify_null_safe:
  assumes "verify now getUser getSession f = (f', None)"
    and "session f = JNull" and "user f = JNull"
  shows "user f' = JNull \<longrightarrow> session f' = JNull"
proof (cases "user_given getUser")
  case None
  from verify_no_user [OF None assms(1)] assms(2) show ?thesis by simp
next
  case (Some a)
  then obtain ur d where u: "getUser = Fulfilled ur" "ur \<noteq> JNull"
    "\<not> truthy (get_prop ur ''error'')" "get_prop ur ''data'' = Some d"
    "d \<noteq> JNull" "get_prop d ''user'' = Some a" "truthy (Some a)"
    by (rule user_givenD)
  from u(7) have a: "a \<noteq> JNull" by (rule truthy_not_null)
  from assms(1) u obtain sd g where "authenticated now a sd g = (f', None)"
    by (auto simp: verify_def Let_def split: sum.splits prod.splits)
  from authenticated_user [OF this a] a show ?thesis by simp
qed

lemma setup_client_null_safe: "null_safe (setup_client cfg now getUser getSession st)"
proof -
  let ?f0 = "\<lparr>session = JNull, user = JNull, trace = logged st\<rparr>"
  obtain f' r where v: "verify now getUser getSession ?f0 = (f', r)"
    by (cases "verify now getUser getSession ?f0")
  show ?thesis
  proof (cases r)
    case None
    with v verify_null_safe [of now getUser getSession ?f0 f'] show ?thesis
      by (simp add: setup_client_def provide_def Let_def null_safe_def)
  next
    case (Some e)
    with v show ?thesis
      by (simp add: setup_client_def provide_def Let_def null_safe_def)
  qed
qed

lemma session_typed_user:
  assumes "session_typed s" and "nullish (opt_dot (Some s) ''user'') = JNull"
  shows "s = JNull"
  using assms by (cases s) (auto split: option.splits json.splits)

lemma on_auth_state_change_null_safe:
  assumes "null_safe st" and "session_typed (snd ev)"
  shows "null_safe (on_auth_state_change st ev)"
  using assms
  by (cases ev)
     (auto simp: on_auth_state_change_def Let_def null_safe_def dest: session_typed_user)

lemma deliver_null_safe:
  assumes "null_safe st" and "\<forall>ev \<in> set evs. session_typed (snd ev)"
  shows "null_safe (deliver st evs)"
  using assms unfolding deliver_def
  by (induction evs arbitrary: st) (simp_all add: on_auth_state_change_null_safe)

lemma setup_server_null_safe:
  "null_safe (setup_server cfg sessionPromise userPromise st) \<longleftrightarrow>
     (if useSsrCookies cfg then fetched userPromise = JNull \<longrightarrow> fetched sessionPromise = JNull
      else null_safe st)"
  by (cases sessionPromise; cases userPromise)
     (simp_all add: setup_server_def provide_def Let_def null_safe_def)

text \<open>
  Claim C1 (null safety), as the code has it. In the client-side plugin the cells are
  null-safe after the initialisation and after any events that follow it, when each event
  carries \<open>null\<close> or a session with its user, as the type of the callback's parameter
  says. In the server-side plugin the cells receive the session and the user fetched
  independently of each other, so they are null-safe after \<open>setup\<close> exactly when a
  missing user comes with a missing session (or, with \<open>useSsrCookies\<close> off, when they
  were before).
\<close>

theorem null_safety:
  "((\<forall>ev \<in> set evs. session_typed (snd ev)) \<longrightarrow>
      null_safe (deliver (setup_client cfg now getUser getSession st) evs))
   \<and> (null_safe (setup_server cfg' sessionPromise userPromise st') \<longleftrightarrow>
        (if useSsrCookies cfg'
         then fetched userPromise = JNull \<longrightarrow> fetched sessionPromise = JNull
         else null_safe st'))"
  using deliver_null_safe [OF setup_client_null_safe] setup_server_null_safe by blast

theorem null_safety_witness:
  "session_typed (session_of user_u2) \<and> session_typed JNull
   \<and> null_safe (deliver (setup_client ssr 1700000000123 (user_response user_u1)
        (error_response ''session'' ''Auth session missing!'') blank)
        [(''SIGNED_IN'', session_of user_u2), (''SIGNED_OUT'', JNull)])
   \<and> fetched (Rejected (JStr ''invalid JWT'')) = JNull
   \<and> null_safe (setup_server ssr (Rejected (JStr ''no cookie'')) (Rejected (JStr ''invalid JWT''))
        blank)"
proof -
  have h: "\<forall>ev \<in> set [(''SIGNED_IN'', session_of user_u2), (''SIGNED_OUT'', JNull)].
      session_typed (snd ev)"
    by (simp add: scenario_defs)
  from null_safety [of "[(''SIGNED_IN'', session_of user_u2), (''SIGNED_OUT'', JNull)]"
      ssr 1700000000123 "user_response user_u1"
      "error_response ''session'' ''Auth session missing!''" blank
      ssr "Rejected (JStr ''no cookie'')" "Rejected (JStr ''invalid JWT'')" blank] h
  show ?thesis by (simp add: ssr_def)
qed

text \<open>
  On the server the claim fails as stated: the session is fetched, the fetch of the user
  is rejected, and the cells hold a session and no user.
\<close>

theorem null_safety_server_counterexample:
  "currentSession (setup_server ssr (Fulfilled tokens) (Rejected (JStr ''invalid JWT'')) blank)
     = tokens
   \<and> tokens \<noteq> JNull
   \<and> currentUser (setup_server ssr (Fulfilled tokens) (Rejected (JStr ''invalid JWT'')) blank)
     = JNull
   \<and> \<not> null_safe (setup_server ssr (Fulfilled tokens) (Rejected (JStr ''invalid JWT'')) blank)"
  by (simp add: setup_server_def provide_def Let_def null_safe_def scenario_defs)

section \<open>The server-side plugin without SSR cookies\<close>

text \<open>
  Claim C10 (the server initialisation is gated by \<open>useSsrCookies\<close>). With the flag
  off, \<open>setup\<close> of the server plugin provides the client it created and leaves the
  session cell and the user cell as they were, whatever the two fetches would give.
\<close>

theorem server_gated_by_useSsrCookies:
  assumes "\<not> useSsrCookies cfg"
  shows "currentSession (setup_server cfg sessionPromise userPromise st) = currentSession st
    \<and> currentUser (setup_server cfg sessionPromise userPromise st) = currentUser st
    \<and> provided (setup_server cfg sessionPromise userPromise st)
        = provided st @ [(''supabase'', ServerClient (url cfg) (key cfg))]"
  using assms by (simp add: setup_server_def provide_def Let_def)

theorem server_gated_by_useSsrCookies_witness:
  "\<not> useSsrCookies no_ssr
   \<and> currentSession (setup_server no_ssr (Fulfilled tokens) (Fulfilled user_u1) signed_in)
       = session_of user_u1
   \<and> currentUser (setup_server no_ssr (Fulfilled tokens) (Fulfilled user_u1) signed_in)
       = user_u1
   \<and> provided (setup_server no_ssr (Fulfilled tokens) (Fulfilled user_u1) signed_in)
       = [(''supabase'', ServerClient ''https://project.supabase.co'' ''anon'')]"
proof -
  have h: "\<not> useSsrCookies no_ssr" by (simp add: no_ssr_def)
  from server_gated_by_useSsrCookies [OF h, of "Fulfilled tokens" "Fulfilled user_u1" signed_in] h
  show ?thesis by (simp add: no_ssr_def signed_in_def blank_def)
qed

section \<open>The retrying transport\<close>

lemma retry_retryable:
  assumes "\<forall>i. classify (request i) = Some Retryable"
  shows "attempts (snd (retry request delay n st)) = attempts st + n
    \<and> (\<exists>e. fst (retry request delay n st) = Failed e)"
  using assms
  by (induction n arbitrary: delay st) (simp_all add: Let_def)

text \<open>
  Claim C8 (retry bound). With the maximum attempt count \<open>maxAttempts\<close>, a call whose
  every attempt fails with a retryable error makes exactly \<open>maxAttempts\<close> attempts and
  fails; a call whose first attempt fails with a terminal error makes exactly one attempt
  and fails with that error. A network error, a timeout and a 5xx status are retryable; a
  4xx status other than 429 is terminal.
\<close>

theorem retry_bound:
  "((\<forall>i. classify (request i) = Some Retryable) \<longrightarrow>
      attempts (snd (fetchWithRetry maxAttempts baseDelay request)) = maxAttempts
      \<and> (\<exists>e. fst (fetchWithRetry maxAttempts baseDelay request) = Failed e))
   \<and> (0 < maxAttempts \<and> classify (request 0) = Some Terminal \<longrightarrow>
      attempts (snd (fetchWithRetry maxAttempts baseDelay request)) = 1
      \<and> fst (fetchWithRetry maxAttempts baseDelay request) = Failed (Some (request 0)))
   \<and> classify NetworkError = Some Retryable \<and> classify Timeout = Some Retryable
   \<and> (\<forall>status. 500 \<le> status \<and> status < 600 \<longrightarrow> classify (Response status) = Some Retryable)
   \<and> (\<forall>status. 400 \<le> status \<and> status < 500 \<and> status \<noteq> 429 \<longrightarrow>
        classify (Response status) = Some Terminal)"
proof -
  have "0 < maxAttempts \<Longrightarrow> classify (request 0) = Some Terminal \<Longrightarrow>
      attempts (snd (fetchWithRetry maxAttempts baseDelay request)) = 1
      \<and> fst (fetchWithRetry maxAttempts baseDelay request) = Failed (Some (request 0))"
    by (cases maxAttempts) (simp_all add: fetchWithRetry_def Let_def)
  moreover have "\<forall>i. classify (request i) = Some Retryable \<Longrightarrow>
      attempts (snd (fetchWithRetry maxAttempts baseDelay request)) = maxAttempts
      \<and> (\<exists>e. fst (fetchWithRetry maxAttempts baseDelay request) = Failed e)"
    using retry_retryable [of request baseDelay maxAttempts] by (simp add: fetchWithRetry_def)
  ultimately show ?thesis by auto
qed

theorem retry_bound_witness:
  "classify (Response 503) = Some Retryable
   \<and> attempts (snd (fetchWithRetry 4 100 (\<lambda>i. Response 503))) = 4
   \<and> (\<exists>e. fst (fetchWithRetry 4 100 (\<lambda>i. Response 503)) = Failed e)
   \<and> (0::nat) < 4
   \<and> classify (Response 404) = Some Terminal
   \<and> attempts (snd (fetchWithRetry 4 100 (\<lambda>i. Response 404))) = 1
   \<and> fst (fetchWithRetry 4 100 (\<lambda>i. Response 404)) = Failed (Some (Response 404))"
proof -
  have h1: "\<forall>i::nat. classify ((\<lambda>i. Response 503) i) = Some Retryable" by simp
  have h2: "(0::nat) < 4 \<and> classify ((\<lambda>i::nat. Response 404) 0) = Some Terminal" by simp
  from retry_bound [of "\<lambda>i. Response 503" 4 100] h1
       retry_bound [of "\<lambda>i. Response 404" 4 100] h2
  show ?thesis by simp
qed

text \<open>
  Three 503 responses and then a 200, with four attempts allowed: the call returns the
  200 after four attempts and a backoff of 100 + 200 + 400.
\<close>

lemma retry_then_success:
  "fetchWithRetry 4 100 (\<lambda>i. if i < 3 then Response 503 else Response 200)
     = (Responded (Response 200),
        \<lparr>attempts = 4, elapsed = 700, last_error = Some (Response 503)\<rparr>)"
  by (simp add: fetchWithRetry_def numeral_eq_Suc Let_def)

end
